theory Spec2Isabelle
  imports Main "HOL-Library.Multiset"
begin

section \<open>The large-file scanner and its report-file variant\<close>

text \<open>
  Both scripts define one function, \<^verbatim>\<open>check_files\<close>: it walks each root with
  \<^verbatim>\<open>os.walk\<close>, removes \<^verbatim>\<open>node_modules\<close> and \<^verbatim>\<open>.git\<close> from the list of
  subdirectories still to visit, opens every file whose name ends with one of eight
  suffixes, counts its lines, collects a tuple for each count above \<^verbatim>\<open>warn_limit\<close>,
  sorts the tuples by count (largest first) and writes the report. The first script
  prints, the second writes to a file it opens at the start.
\<close>

subsection \<open>What the scripts read: directory trees\<close>

text \<open>
  A file is what \<^verbatim>\<open>open(...)\<close> followed by \<^verbatim>\<open>f.readlines()\<close> gives: the list of
  its lines, or an exception, kept as the text \<^verbatim>\<open>{e}\<close> renders. A directory is what
  \<^verbatim>\<open>os.walk\<close> obtains from listing it: its subdirectories and its other entries, each
  in listing order. \<open>Unlistable\<close> is an entry that \<^verbatim>\<open>os.walk\<close> names among the
  subdirectories but yields nothing for: a link to a directory (links are not followed)
  or a directory whose listing fails (\<^verbatim>\<open>os.walk\<close> is called without \<^verbatim>\<open>onerror\<close>, so
  the failure is dropped).
\<close>

datatype file_data = Content "string list" | Unreadable string

datatype dir = Dir "(string \<times> dir) list" "(string \<times> file_data) list" | Unlistable

text \<open>The tuples \<^verbatim>\<open>(lines, status, filepath)\<close> appended to \<^verbatim>\<open>large_files\<close>.\<close>

type_synonym finding = "int \<times> string \<times> string"

text \<open>
  The state the loops thread: the text written so far (to standard output in the first
  script, to the report file's handle in the second) and the list \<^verbatim>\<open>large_files\<close>.
\<close>

record scan_state =
  out :: string
  large_files :: "finding list"

subsection \<open>Python's library functions, as far as the scripts use them\<close>

text \<open>\<^verbatim>\<open>str.endswith\<close>, with one suffix and with a tuple of suffixes.\<close>

definition endswith :: "string \<Rightarrow> string \<Rightarrow> bool" where
  "endswith s suf = (length suf \<le> length s \<and> drop (length s - length suf) s = suf)"

definition endswith_any :: "string \<Rightarrow> string list \<Rightarrow> bool" where
  "endswith_any s sufs = list_ex (endswith s) sufs"

definition suffixes :: "string list" where
  "suffixes = [''.js'', ''.ts'', ''.jsx'', ''.tsx'', ''.mjs'', ''.cjs'', ''.css'', ''.html'']"

text \<open>\<^verbatim>\<open>os.path.join\<close> of two components, as \<^verbatim>\<open>posixpath\<close> defines it.\<close>

definition os_path_join :: "string \<Rightarrow> string \<Rightarrow> string" where
  "os_path_join a b =
     (if take 1 b = ''/'' then b
      else if a = [] \<or> endswith a ''/'' then a @ b
      else a @ ''/'' @ b)"

text \<open>\<^verbatim>\<open>str\<close> of an integer, as an f-string renders \<^verbatim>\<open>{count}\<close>.\<close>

fun digits :: "nat \<Rightarrow> string" where
  "digits n =
     (if n < 10 then [''0123456789'' ! n]
      else digits (n div 10) @ [''0123456789'' ! (n mod 10)])"

declare digits.simps [simp del]

definition str_int :: "int \<Rightarrow> string" where
  "str_int i = (if i < 0 then ''-'' @ digits (nat (- i)) else digits (nat i))"

text \<open>
  \<^verbatim>\<open>repr\<close> of a list of strings, as the f-string renders \<^verbatim>\<open>{roots}\<close>. The quote is
  the double quote when the string holds a single quote and no double quote; the quote,
  the backslash and the control characters are escaped. Characters are bytes here, and
  this is Python's \<^verbatim>\<open>repr\<close> for ASCII strings only: a byte from 0x80 on is left as it
  is, which is what Python does with a printable character beyond ASCII, whereas it
  writes an escape for one that is not printable (U+0080 to U+00A0, U+00AD, U+200B and
  others) and for a byte that is not UTF-8. Only the text of the header line depends on
  it. What matters below is that \<^verbatim>\<open>repr\<close> leaves nothing that cannot be encoded.
\<close>

definition hex_digit :: "nat \<Rightarrow> char" where
  "hex_digit n = ''0123456789abcdef'' ! n"

definition repr_char :: "char \<Rightarrow> char \<Rightarrow> string" where
  "repr_char quote c =
     (if c = quote \<or> c = CHR 0x5C then [CHR 0x5C, c]
      else if c = CHR 0x09 then [CHR 0x5C, CHR ''t'']
      else if c = CHR 0x0A then [CHR 0x5C, CHR ''n'']
      else if c = CHR 0x0D then [CHR 0x5C, CHR ''r'']
      else if of_char c < (32::nat) \<or> c = CHR 0x7F then
        [CHR 0x5C, CHR ''x'', hex_digit (of_char c div 16), hex_digit (of_char c mod 16)]
      else [c])"

definition repr_str :: "string \<Rightarrow> string" where
  "repr_str s =
     (let quote = (if CHR 0x27 \<in> set s \<and> CHR 0x22 \<notin> set s then CHR 0x22 else CHR 0x27)
      in [quote] @ concat (map (repr_char quote) s) @ [quote])"

fun join_comma :: "string list \<Rightarrow> string" where
  "join_comma [] = []"
| "join_comma [x] = x"
| "join_comma (x # y # ys) = x @ '', '' @ join_comma (y # ys)"

definition repr_list :: "string list \<Rightarrow> string" where
  "repr_list xs = ''['' @ join_comma (map repr_str xs) @ '']''"

text \<open>
  \<^verbatim>\<open>list.sort(reverse=True, key=k)\<close>. CPython reverses the list, sorts it stably in
  ascending order of the keys and reverses the result, so that equal keys keep their
  order. \<open>sort_key\<close> is a stable sort, and a stable sort has one result.
\<close>

definition sort_reverse_key :: "('a \<Rightarrow> 'k::linorder) \<Rightarrow> 'a list \<Rightarrow> 'a list" where
  "sort_reverse_key k xs = rev (sort_key k (rev xs))"

subsection \<open>Pieces both scripts write the same way\<close>

text \<open>The first line of the report, without its newline.\<close>

definition header :: "string list \<Rightarrow> int \<Rightarrow> int \<Rightarrow> string" where
  "header roots warn_limit fail_limit =
     ''Checking files in '' @ repr_list roots @ '' (Warn: '' @ str_int warn_limit
       @ '', Fail: '' @ str_int fail_limit @ '')''"

text \<open>The line \<^verbatim>\<open>[{status}] {count} lines: {path}\<close>, without its newline.\<close>

definition render_finding :: "finding \<Rightarrow> string" where
  "render_finding x =
     (case x of (cnt, status, path) \<Rightarrow>
        ''['' @ status @ ''] '' @ str_int cnt @ '' lines: '' @ path)"

text \<open>
  \<^verbatim>\<open>if name in dirs: dirs.remove(name)\<close> on the list \<^verbatim>\<open>os.walk\<close> handed out:
  \<^verbatim>\<open>list.remove\<close> takes the first entry of that name away. \<^verbatim>\<open>os.walk\<close> then
  descends into what is left, so each name carries its subtree here.
\<close>

fun remove_name :: "string \<Rightarrow> (string \<times> 'a) list \<Rightarrow> (string \<times> 'a) list" where
  "remove_name n [] = []"
| "remove_name n ((m, d) # xs) = (if m = n then xs else (m, d) # remove_name n xs)"

definition prune :: "(string \<times> dir) list \<Rightarrow> (string \<times> dir) list" where
  "prune dirs =
     (let dirs1 = (if ''node_modules'' \<in> set (map fst dirs)
                   then remove_name ''node_modules'' dirs else dirs)
      in if ''.git'' \<in> set (map fst dirs1) then remove_name ''.git'' dirs1 else dirs1)"

lemma remove_name_subset: "set (remove_name n xs) \<subseteq> set xs"
  by (induction xs) (auto split: if_splits)

lemma prune_subset: "set (prune dirs) \<subseteq> set dirs"
  unfolding prune_def Let_def
  using remove_name_subset [of "''.git''" "remove_name ''node_modules'' dirs"]
    remove_name_subset [of "''node_modules''" dirs] remove_name_subset [of "''.git''" dirs]
  by auto

lemma prune_size: "(name, sub) \<in> set (prune dirs) \<Longrightarrow> size sub < size (Dir dirs files)"
proof -
  assume "(name, sub) \<in> set (prune dirs)"
  then have "(name, sub) \<in> set dirs" using prune_subset by blast
  then show ?thesis by (induction dirs) auto
qed

subsection \<open>The first script, printing to standard output\<close>

text \<open>\<^verbatim>\<open>print(s)\<close>: the text and a newline, appended to standard output.\<close>

definition print_line :: "string \<Rightarrow> scan_state \<Rightarrow> scan_state" where
  "print_line s st = st\<lparr>out := out st @ s @ [CHR 0x0A]\<rparr>"

text \<open>The body of \<^verbatim>\<open>for file in files\<close>, for one entry of the directory \<open>root\<close>.\<close>

definition scan_file ::
  "int \<Rightarrow> int \<Rightarrow> string \<Rightarrow> string \<times> file_data \<Rightarrow> scan_state \<Rightarrow> scan_state" where
  "scan_file warn_limit fail_limit root entry st =
     (case entry of (file, data) \<Rightarrow>
        if \<not> endswith_any file suffixes then st
        else
          let filepath = os_path_join root file in
          (case data of
             Content ls \<Rightarrow>
               let n = int (length ls) in
               if n > warn_limit then
                 let status = (if n > fail_limit then ''FAIL'' else ''WARN'')
                 in st\<lparr>large_files := large_files st @ [(n, status, filepath)]\<rparr>
               else st
           | Unreadable e \<Rightarrow> print_line (''Error reading '' @ filepath @ '': '' @ e) st))"

text \<open>
  \<^verbatim>\<open>for root, dirs, files in os.walk(root_dir)\<close> with its body: \<^verbatim>\<open>os.walk\<close> yields
  a directory before its subdirectories, the body prunes \<^verbatim>\<open>dirs\<close> and scans the
  files, and \<^verbatim>\<open>os.walk\<close> goes on with the subdirectories left in \<^verbatim>\<open>dirs\<close>.
\<close>

function walk :: "int \<Rightarrow> int \<Rightarrow> string \<Rightarrow> dir \<Rightarrow> scan_state \<Rightarrow> scan_state" where
  "walk warn_limit fail_limit root (Dir dirs files) st =
     fold (\<lambda>(name, sub). walk warn_limit fail_limit (os_path_join root name) sub)
       (prune dirs) (fold (scan_file warn_limit fail_limit root) files st)"
| "walk warn_limit fail_limit root Unlistable st = st"
  by pat_completeness auto
termination
  by (relation "measure (\<lambda>(w, f, root, d, st). size d)") (auto dest: prune_size)

text \<open>
  \<^verbatim>\<open>for root_dir in roots\<close>. The file system gives each root path its tree, or
  \<open>None\<close> when nothing is there: \<^verbatim>\<open>os.walk\<close> then yields nothing.
\<close>

definition walk_roots ::
  "(string \<Rightarrow> dir option) \<Rightarrow> int \<Rightarrow> int \<Rightarrow> string list \<Rightarrow> scan_state \<Rightarrow> scan_state" where
  "walk_roots fs warn_limit fail_limit roots st =
     fold (\<lambda>root_dir st'. case fs root_dir of
                              None \<Rightarrow> st'
                            | Some d \<Rightarrow> walk warn_limit fail_limit root_dir d st') roots st"

text \<open>
  \<^verbatim>\<open>check_files(roots, warn_limit, fail_limit)\<close>. The result is the final state: all
  the text printed, and \<^verbatim>\<open>large_files\<close> as sorted.
\<close>

definition check_files ::
  "(string \<Rightarrow> dir option) \<Rightarrow> string list \<Rightarrow> int \<Rightarrow> int \<Rightarrow> scan_state" where
  "check_files fs roots warn_limit fail_limit =
     (let st0 = print_line (header roots warn_limit fail_limit) \<lparr>out = [], large_files = []\<rparr>;
          st1 = walk_roots fs warn_limit fail_limit roots st0;
          st2 = st1\<lparr>large_files := sort_reverse_key fst (large_files st1)\<rparr>;
          st3 = print_line (CHR 0x0A # ''Results:'') st2
      in fold (\<lambda>x. print_line (render_finding x)) (large_files st3) st3)"

subsection \<open>The second script, writing a report file\<close>

text \<open>
  The second script opens \<^verbatim>\<open>output_file\<close> for writing before anything else, which
  truncates it, and writes every line to it. What the report files hold is a store from
  paths to slots; \<open>Locked\<close> is a path that cannot be opened for writing, where
  \<^verbatim>\<open>open\<close> raises and the call ends.

  This subsection is the script under two assumptions: the report file is not one of
  the files the scan opens (its default name ends in \<^verbatim>\<open>.txt\<close>, which is not a
  recognised suffix), so that the store is apart from the scanned trees; and every line
  written has a UTF-8 encoding, so that \<^verbatim>\<open>out.write\<close> does not raise. The next
  subsection is the script without them, and \<open>check_files_v2_io_ideal\<close> proves that the
  two agree where the assumptions hold.
\<close>

datatype slot = Absent | Text string | Locked

datatype error = OSError string | UnicodeEncodeError string

text \<open>
  \<^verbatim>\<open>out.write(s)\<close> of a text that has an encoding: the text as it is; the script
  writes the newline itself.
\<close>

definition write_v2 :: "string \<Rightarrow> scan_state \<Rightarrow> scan_state" where
  "write_v2 s st = st\<lparr>out := out st @ s\<rparr>"

definition scan_file_v2 ::
  "int \<Rightarrow> int \<Rightarrow> string \<Rightarrow> string \<times> file_data \<Rightarrow> scan_state \<Rightarrow> scan_state" where
  "scan_file_v2 warn_limit fail_limit root entry st =
     (case entry of (file, data) \<Rightarrow>
        if \<not> endswith_any file suffixes then st
        else
          let filepath = os_path_join root file in
          (case data of
             Content ls \<Rightarrow>
               let n = int (length ls) in
               if n > warn_limit then
                 let status = (if n > fail_limit then ''FAIL'' else ''WARN'')
                 in st\<lparr>large_files := large_files st @ [(n, status, filepath)]\<rparr>
               else st
           | Unreadable e \<Rightarrow>
               write_v2 (''Error reading '' @ filepath @ '': '' @ e @ [CHR 0x0A]) st))"

function walk_v2 :: "int \<Rightarrow> int \<Rightarrow> string \<Rightarrow> dir \<Rightarrow> scan_state \<Rightarrow> scan_state" where
  "walk_v2 warn_limit fail_limit root (Dir dirs files) st =
     fold (\<lambda>(name, sub). walk_v2 warn_limit fail_limit (os_path_join root name) sub)
       (prune dirs) (fold (scan_file_v2 warn_limit fail_limit root) files st)"
| "walk_v2 warn_limit fail_limit root Unlistable st = st"
  by pat_completeness auto
termination
  by (relation "measure (\<lambda>(w, f, root, d, st). size d)") (auto dest: prune_size)

definition walk_roots_v2 ::
  "(string \<Rightarrow> dir option) \<Rightarrow> int \<Rightarrow> int \<Rightarrow> string list \<Rightarrow> scan_state \<Rightarrow> scan_state" where
  "walk_roots_v2 fs warn_limit fail_limit roots st =
     fold (\<lambda>root_dir st'. case fs root_dir of
                              None \<Rightarrow> st'
                            | Some d \<Rightarrow> walk_v2 warn_limit fail_limit root_dir d st') roots st"

text \<open>The body of the \<^verbatim>\<open>with\<close> block: what is written to the handle, and the list.\<close>

definition report_v2 ::
  "(string \<Rightarrow> dir option) \<Rightarrow> string list \<Rightarrow> int \<Rightarrow> int \<Rightarrow> scan_state" where
  "report_v2 fs roots warn_limit fail_limit =
     (let st0 = write_v2 (header roots warn_limit fail_limit @ [CHR 0x0A])
                  \<lparr>out = [], large_files = []\<rparr>;
          st1 = walk_roots_v2 fs warn_limit fail_limit roots st0;
          st2 = st1\<lparr>large_files := sort_reverse_key fst (large_files st1)\<rparr>;
          st3 = write_v2 (CHR 0x0A # ''Results:'' @ [CHR 0x0A]) st2
      in fold (\<lambda>x. write_v2 (render_finding x @ [CHR 0x0A])) (large_files st3) st3)"

text \<open>
  \<^verbatim>\<open>check_files(roots, warn_limit, fail_limit, output_file)\<close>: the store after the
  call, or the error \<^verbatim>\<open>open\<close> raised.
\<close>

definition check_files_v2 ::
  "(string \<Rightarrow> dir option) \<Rightarrow> string list \<Rightarrow> int \<Rightarrow> int \<Rightarrow> string \<Rightarrow> (string \<Rightarrow> slot)
     \<Rightarrow> error + (string \<Rightarrow> slot)" where
  "check_files_v2 fs roots warn_limit fail_limit output_file store =
     (case store output_file of
        Locked \<Rightarrow> Inl (OSError output_file)
      | _ \<Rightarrow> Inr (store(output_file := Text (out (report_v2 fs roots warn_limit fail_limit)))))"

subsection \<open>The second script and its own report file\<close>

text \<open>
  Two things the second script does that the previous subsection leaves out.

  The report is opened with \<^verbatim>\<open>encoding="utf-8"\<close> and the default error handling, so
  \<^verbatim>\<open>out.write\<close> raises \<^verbatim>\<open>UnicodeEncodeError\<close> for a text that has no UTF-8 encoding.
  A string stands here for the bytes of a path or message, and Python decodes the names it
  lists with \<^verbatim>\<open>surrogateescape\<close>: the text has an encoding exactly when its bytes are
  well-formed UTF-8. \<open>utf8_valid\<close> is that test (no overlong form, no surrogate, nothing
  above U+10FFFF).
\<close>

definition continuation :: "char \<Rightarrow> bool" where
  "continuation c = (128 \<le> (of_char c :: nat) \<and> (of_char c :: nat) < 192)"

fun utf8_valid :: "string \<Rightarrow> bool" where
  "utf8_valid [] = True"
| "utf8_valid (c # cs) =
     (let b = (of_char c :: nat) in
      if b < 128 then utf8_valid cs
      else if 194 \<le> b \<and> b < 224 then
        (case cs of c1 # r \<Rightarrow> continuation c1 \<and> utf8_valid r | _ \<Rightarrow> False)
      else if 224 \<le> b \<and> b < 240 then
        (case cs of
           c1 # c2 # r \<Rightarrow>
             continuation c1 \<and> continuation c2
             \<and> (if b = 224 then 160 \<le> (of_char c1 :: nat) else True)
             \<and> (if b = 237 then (of_char c1 :: nat) < 160 else True)
             \<and> utf8_valid r
         | _ \<Rightarrow> False)
      else if 240 \<le> b \<and> b < 245 then
        (case cs of
           c1 # c2 # c3 # r \<Rightarrow>
             continuation c1 \<and> continuation c2 \<and> continuation c3
             \<and> (if b = 240 then 144 \<le> (of_char c1 :: nat) else True)
             \<and> (if b = 244 then (of_char c1 :: nat) < 144 else True)
             \<and> utf8_valid r
         | _ \<Rightarrow> False)
      else False)"

declare utf8_valid.simps [simp del]

lemma utf8_valid_Nil [simp]: "utf8_valid []"
  by (simp add: utf8_valid.simps)

definition write_v2_io :: "string \<Rightarrow> scan_state \<Rightarrow> error + scan_state" where
  "write_v2_io s st =
     (if utf8_valid s then Inr (st\<lparr>out := out st @ s\<rparr>) else Inl (UnicodeEncodeError s))"

text \<open>A loop whose body may raise: the first error ends it.\<close>

fun fold_err :: "('a \<Rightarrow> 's \<Rightarrow> error + 's) \<Rightarrow> 'a list \<Rightarrow> 's \<Rightarrow> error + 's" where
  "fold_err g [] st = Inr st"
| "fold_err g (x # xs) st = (case g x st of Inl e \<Rightarrow> Inl e | Inr st' \<Rightarrow> fold_err g xs st')"

lemma fold_err_cong [fundef_cong]:
  "xs = ys \<Longrightarrow> st = st' \<Longrightarrow> (\<And>x s. x \<in> set ys \<Longrightarrow> g x s = h x s) \<Longrightarrow>
     fold_err g xs st = fold_err h ys st'"
  by (induction ys arbitrary: xs st st') (auto split: sum.splits)

text \<open>
  The report file is open, and truncated, while the walk runs. When a path the walk opens
  names the report file, what is read is what has reached the file by then, not what the
  file held before the call. Which paths name the report file (the same string, or
  another path to the same file) and how much of the text written so far has left the
  handle's buffer are the file system's and the I/O library's business: \<open>report_view\<close>
  gives, for a path and the text written so far, \<open>None\<close> when the path is not the report
  file, and else what reading it gives. The trees are the directories as the walk lists
  them, so a report file that the call has created in a scanned directory is an entry
  there. The walk is otherwise that of \<open>scan_file_v2\<close> and \<open>walk_v2\<close>.
\<close>

definition scan_file_v2_io ::
  "(string \<Rightarrow> string \<Rightarrow> file_data option) \<Rightarrow> int \<Rightarrow> int \<Rightarrow> string \<Rightarrow> string \<times> file_data
     \<Rightarrow> scan_state \<Rightarrow> error + scan_state" where
  "scan_file_v2_io report_view warn_limit fail_limit root entry st =
     (case entry of (file, data) \<Rightarrow>
        if \<not> endswith_any file suffixes then Inr st
        else
          let filepath = os_path_join root file;
              seen = (case report_view filepath (out st) of None \<Rightarrow> data | Some d \<Rightarrow> d) in
          (case seen of
             Content ls \<Rightarrow>
               let n = int (length ls) in
               if n > warn_limit then
                 let status = (if n > fail_limit then ''FAIL'' else ''WARN'')
                 in Inr (st\<lparr>large_files := large_files st @ [(n, status, filepath)]\<rparr>)
               else Inr st
           | Unreadable e \<Rightarrow>
               write_v2_io (''Error reading '' @ filepath @ '': '' @ e @ [CHR 0x0A]) st))"

function walk_v2_io ::
  "(string \<Rightarrow> string \<Rightarrow> file_data option) \<Rightarrow> int \<Rightarrow> int \<Rightarrow> string \<Rightarrow> dir \<Rightarrow> scan_state
     \<Rightarrow> error + scan_state" where
  "walk_v2_io report_view warn_limit fail_limit root (Dir dirs files) st =
     (case fold_err (scan_file_v2_io report_view warn_limit fail_limit root) files st of
        Inl e \<Rightarrow> Inl e
      | Inr st' \<Rightarrow>
          fold_err (\<lambda>(name, sub). walk_v2_io report_view warn_limit fail_limit (os_path_join root name) sub)
            (prune dirs) st')"
| "walk_v2_io report_view warn_limit fail_limit root Unlistable st = Inr st"
  by pat_completeness auto
termination
  by (relation "measure (\<lambda>(v, w, f, root, d, st). size d)") (auto dest: prune_size)

definition walk_roots_v2_io ::
  "(string \<Rightarrow> string \<Rightarrow> file_data option) \<Rightarrow> (string \<Rightarrow> dir option) \<Rightarrow> int \<Rightarrow> int \<Rightarrow> string list
     \<Rightarrow> scan_state \<Rightarrow> error + scan_state" where
  "walk_roots_v2_io report_view fs warn_limit fail_limit roots st =
     fold_err (\<lambda>root_dir st'. case fs root_dir of
                                  None \<Rightarrow> Inr st'
                                | Some d \<Rightarrow> walk_v2_io report_view warn_limit fail_limit root_dir d st')
       roots st"

text \<open>
  The body of the \<^verbatim>\<open>with\<close> block. The header line is written unchecked: \<^verbatim>\<open>repr\<close>
  escapes whatever has no encoding, and the limits are numbers. The lines of the
  Findings carry paths, as the error lines of the walk do.
\<close>

definition report_v2_io ::
  "(string \<Rightarrow> string \<Rightarrow> file_data option) \<Rightarrow> (string \<Rightarrow> dir option) \<Rightarrow> string list \<Rightarrow> int \<Rightarrow> int
     \<Rightarrow> error + scan_state" where
  "report_v2_io report_view fs roots warn_limit fail_limit =
     (let st0 = write_v2 (header roots warn_limit fail_limit @ [CHR 0x0A])
                  \<lparr>out = [], large_files = []\<rparr>
      in case walk_roots_v2_io report_view fs warn_limit fail_limit roots st0 of
           Inl e \<Rightarrow> Inl e
         | Inr st1 \<Rightarrow>
             let st2 = st1\<lparr>large_files := sort_reverse_key fst (large_files st1)\<rparr>;
                 st3 = write_v2 (CHR 0x0A # ''Results:'' @ [CHR 0x0A]) st2
             in fold_err (\<lambda>x. write_v2_io (render_finding x @ [CHR 0x0A])) (large_files st3) st3)"

text \<open>
  \<^verbatim>\<open>check_files(roots, warn_limit, fail_limit, output_file)\<close>: the store after the
  call, or the error raised by \<^verbatim>\<open>open\<close> or by \<^verbatim>\<open>out.write\<close>.
\<close>

definition check_files_v2_io ::
  "(string \<Rightarrow> string \<Rightarrow> file_data option) \<Rightarrow> (string \<Rightarrow> dir option) \<Rightarrow> string list \<Rightarrow> int \<Rightarrow> int
     \<Rightarrow> string \<Rightarrow> (string \<Rightarrow> slot) \<Rightarrow> error + (string \<Rightarrow> slot)" where
  "check_files_v2_io report_view fs roots warn_limit fail_limit output_file store =
     (case store output_file of
        Locked \<Rightarrow> Inl (OSError output_file)
      | _ \<Rightarrow>
          (case report_v2_io report_view fs roots warn_limit fail_limit of
             Inl e \<Rightarrow> Inl e
           | Inr st \<Rightarrow> Inr (store(output_file := Text (out st)))))"

text \<open>
  The view for a report file that is reached by the path \<^verbatim>\<open>output_file\<close> itself and
  by no other, while nothing written has left the handle's buffer yet: it reads as
  empty. The buffer holds several kilobytes, so this is the view as long as the report
  is short.
\<close>

definition view_of :: "string \<Rightarrow> string \<Rightarrow> string \<Rightarrow> file_data option" where
  "view_of output_file filepath written =
     (if filepath = output_file then Some (Content []) else None)"

text \<open>The first line that cannot be encoded, if there is one.\<close>

definition first_bad :: "string list \<Rightarrow> string option" where
  "first_bad lines = find (\<lambda>s. \<not> utf8_valid s) lines"

subsection \<open>The files a scan opens\<close>

text \<open>
  The files a walk opens, each with the path the walk builds for it, in the order the
  walk reaches them: the entries of a directory whose names carry a recognised suffix,
  then what the subdirectories left after pruning give. The theorems below state what
  the scripts do with the files of this list.
\<close>

definition accepted :: "string \<Rightarrow> (string \<times> file_data) list \<Rightarrow> (string \<times> file_data) list" where
  "accepted root files =
     map (\<lambda>(file, data). (os_path_join root file, data))
       (filter (\<lambda>(file, data). endswith_any file suffixes) files)"

function scanned :: "string \<Rightarrow> dir \<Rightarrow> (string \<times> file_data) list" where
  "scanned root (Dir dirs files) =
     accepted root files @ concat (map (\<lambda>(name, sub). scanned (os_path_join root name) sub) (prune dirs))"
| "scanned root Unlistable = []"
  by pat_completeness auto
termination
  by (relation "measure (\<lambda>(root, d). size d)") (auto dest: prune_size)

definition scanned_roots :: "(string \<Rightarrow> dir option) \<Rightarrow> string list \<Rightarrow> (string \<times> file_data) list" where
  "scanned_roots fs roots =
     concat (map (\<lambda>root_dir. case fs root_dir of None \<Rightarrow> [] | Some d \<Rightarrow> scanned root_dir d) roots)"

text \<open>What one opened file adds to \<^verbatim>\<open>large_files\<close>, and what it adds to the output.\<close>

definition finding_of :: "int \<Rightarrow> int \<Rightarrow> string \<times> file_data \<Rightarrow> finding list" where
  "finding_of warn_limit fail_limit entry =
     (case entry of
        (filepath, Content ls) \<Rightarrow>
          if int (length ls) > warn_limit
          then [(int (length ls), if int (length ls) > fail_limit then ''FAIL'' else ''WARN'', filepath)]
          else []
      | (filepath, Unreadable e) \<Rightarrow> [])"

definition error_of :: "string \<times> file_data \<Rightarrow> string" where
  "error_of entry =
     (case entry of
        (filepath, Content ls) \<Rightarrow> []
      | (filepath, Unreadable e) \<Rightarrow> ''Error reading '' @ filepath @ '': '' @ e @ [CHR 0x0A])"

definition grow :: "scan_state \<Rightarrow> string \<Rightarrow> finding list \<Rightarrow> scan_state" where
  "grow st txt fnd = st\<lparr>out := out st @ txt, large_files := large_files st @ fnd\<rparr>"

subsection \<open>Changing a tree below its root\<close>

text \<open>
  To say that part of a tree does not matter to a scan, the theorems compare the scan of
  a tree with the scan of the same tree after the directory reached by a path of names
  has been replaced. At each level the path follows the first entry of its name, as
  \<^verbatim>\<open>dirs.remove\<close> does; a path that leads nowhere changes nothing.
\<close>

fun update_first :: "string \<Rightarrow> ('a \<Rightarrow> 'a) \<Rightarrow> (string \<times> 'a) list \<Rightarrow> (string \<times> 'a) list" where
  "update_first n g [] = []"
| "update_first n g ((m, d) # xs) = (if m = n then (m, g d) # xs else (m, d) # update_first n g xs)"

primrec replace_at :: "string list \<Rightarrow> dir \<Rightarrow> dir \<Rightarrow> dir" where
  "replace_at [] new d = new"
| "replace_at (n # ns) new d =
     (case d of
        Dir dirs files \<Rightarrow> Dir (update_first n (replace_at ns new) dirs) files
      | Unlistable \<Rightarrow> Unlistable)"

subsection \<open>Auxiliary facts: what a walk does with the files it opens\<close>

lemma grow_nil [simp]: "grow st [] [] = st"
  by (simp add: grow_def)

lemma grow_grow [simp]: "grow (grow st a b) c d = grow st (a @ c) (b @ d)"
  by (simp add: grow_def)

lemma out_grow [simp]: "out (grow st a b) = out st @ a"
  and large_files_grow [simp]: "large_files (grow st a b) = large_files st @ b"
  by (simp_all add: grow_def)

lemma fold_grow:
  assumes "\<And>x st. x \<in> set xs \<Longrightarrow> g x st = grow st (A x) (B x)"
  shows "fold g xs st = grow st (concat (map A xs)) (concat (map B xs))"
  using assms by (induction xs arbitrary: st) simp_all

lemma scan_file_grow:
  "scan_file w f root entry st =
     grow st (concat (map error_of (accepted root [entry])))
       (concat (map (finding_of w f) (accepted root [entry])))"
  by (cases entry; cases "snd entry")
     (auto simp: scan_file_def accepted_def error_of_def finding_of_def grow_def print_line_def Let_def)

lemma accepted_concat: "accepted root files = concat (map (\<lambda>e. accepted root [e]) files)"
  by (induction files) (auto simp: accepted_def)

lemma fold_scan_file:
  "fold (scan_file w f root) files st =
     grow st (concat (map error_of (accepted root files)))
       (concat (map (finding_of w f) (accepted root files)))"
proof -
  have "fold (scan_file w f root) files st =
      grow st (concat (map (\<lambda>e. concat (map error_of (accepted root [e]))) files))
       (concat (map (\<lambda>e. concat (map (finding_of w f) (accepted root [e]))) files))"
    by (rule fold_grow) (rule scan_file_grow)
  moreover have "concat (map (\<lambda>e. concat (map error_of (accepted root [e]))) files)
      = concat (map error_of (accepted root files))"
    by (induction files) (auto simp: accepted_def)
  moreover have "concat (map (\<lambda>e. concat (map (finding_of w f) (accepted root [e]))) files)
      = concat (map (finding_of w f) (accepted root files))"
    by (induction files) (auto simp: accepted_def)
  ultimately show ?thesis by simp
qed

lemma concat_map_concat:
  "concat (map g (concat xss)) = concat (map (\<lambda>xs. concat (map g xs)) xss)"
  by (induction xss) simp_all

lemma walk_grow:
  "walk w f root d st =
     grow st (concat (map error_of (scanned root d))) (concat (map (finding_of w f) (scanned root d)))"
proof (induction w f root d st rule: walk.induct)
  case (1 w f root dirs files st)
  have "fold (\<lambda>(name, sub). walk w f (os_path_join root name) sub) (prune dirs) st' =
      grow st' (concat (map (\<lambda>(name, sub). concat (map error_of (scanned (os_path_join root name) sub))) (prune dirs)))
        (concat (map (\<lambda>(name, sub). concat (map (finding_of w f) (scanned (os_path_join root name) sub))) (prune dirs)))"
    for st'
    by (rule fold_grow) (use 1 in auto)
  then show ?case
    by (simp add: fold_scan_file concat_map_concat comp_def case_prod_unfold)
next
  case (2 w f root st)
  then show ?case by simp
qed


lemma scan_file_v2_eq: "scan_file_v2 w f root entry st = scan_file w f root entry st"
  by (simp add: scan_file_v2_def scan_file_def write_v2_def print_line_def Let_def
      split: prod.split file_data.split)

lemma walk_v2_eq: "walk_v2 w f root d st = walk w f root d st"
proof (induction w f root d st rule: walk_v2.induct)
  case (1 w f root dirs files st)
  have "fold (\<lambda>(name, sub). walk_v2 w f (os_path_join root name) sub) (prune dirs) st' =
      fold (\<lambda>(name, sub). walk w f (os_path_join root name) sub) (prune dirs) st'" for st'
    by (rule fold_cong) (use 1 in auto)
  moreover have "scan_file_v2 w f root = scan_file w f root"
    by (rule ext)+ (rule scan_file_v2_eq)
  ultimately show ?case by simp
next
  case (2 w f root st)
  then show ?case by simp
qed

lemma walk_roots_v2_eq: "walk_roots_v2 fs w f roots st = walk_roots fs w f roots st"
proof -
  have "(\<lambda>root_dir st'. case fs root_dir of None \<Rightarrow> st' | Some d \<Rightarrow> walk_v2 w f root_dir d st')
      = (\<lambda>root_dir st'. case fs root_dir of None \<Rightarrow> st' | Some d \<Rightarrow> walk w f root_dir d st')"
    by (intro ext) (simp add: walk_v2_eq split: option.split)
  then show ?thesis
    by (simp add: walk_roots_v2_def walk_roots_def)
qed

lemma fold_print_line:
  "fold (\<lambda>x. print_line (g x)) xs st = grow st (concat (map (\<lambda>x. g x @ [CHR 0x0A]) xs)) []"
  by (induction xs arbitrary: st) (simp_all add: print_line_def grow_def)

lemma fold_write_v2:
  "fold (\<lambda>x. write_v2 (g x)) xs st = grow st (concat (map g xs)) []"
  by (induction xs arbitrary: st) (simp_all add: write_v2_def grow_def)

lemma report_v2_eq: "report_v2 fs roots w f = check_files fs roots w f"
  by (simp add: report_v2_def check_files_def walk_roots_v2_eq fold_print_line fold_write_v2
      Let_def write_v2_def print_line_def)

lemma walk_roots_grow:
  "walk_roots fs w f roots st =
     grow st (concat (map error_of (scanned_roots fs roots)))
       (concat (map (finding_of w f) (scanned_roots fs roots)))"
proof -
  have "walk_roots fs w f roots st =
      grow st (concat (map (\<lambda>r. concat (map error_of (case fs r of None \<Rightarrow> [] | Some d \<Rightarrow> scanned r d))) roots))
        (concat (map (\<lambda>r. concat (map (finding_of w f) (case fs r of None \<Rightarrow> [] | Some d \<Rightarrow> scanned r d))) roots))"
    unfolding walk_roots_def
    by (rule fold_grow) (simp add: walk_grow split: option.split)
  then show ?thesis
    by (simp add: scanned_roots_def concat_map_concat comp_def)
qed

lemma check_files_large:
  "large_files (check_files fs roots w f) =
     sort_reverse_key fst (concat (map (finding_of w f) (scanned_roots fs roots)))"
  by (simp add: check_files_def Let_def fold_print_line walk_roots_grow print_line_def)


lemma set_sort_reverse_key [simp]: "set (sort_reverse_key k xs) = set xs"
  by (simp add: sort_reverse_key_def)

lemma mset_sort_reverse_key [simp]: "mset (sort_reverse_key k xs) = mset xs"
  by (simp add: sort_reverse_key_def)

lemma length_sort_reverse_key [simp]: "length (sort_reverse_key k xs) = length xs"
  by (simp add: sort_reverse_key_def)

lemma sorted_sort_reverse_key: "sorted (rev (map k (sort_reverse_key k xs)))"
  by (simp add: sort_reverse_key_def rev_map [symmetric])

lemma sort_reverse_key_stable:
  "filter (\<lambda>x. k x = a) (sort_reverse_key k xs) = filter (\<lambda>x. k x = a) xs"
  by (simp add: sort_reverse_key_def rev_filter [symmetric] sort_key_stable)

lemma sorted_wrt_sort_reverse_key:
  "sorted_wrt (\<lambda>x y. k x \<ge> k y) (sort_reverse_key k xs)"
proof -
  have "sorted_wrt (\<lambda>x y. k x \<le> k y) (sort_key k (rev xs))"
    using sorted_sort_key [of k "rev xs"] by (simp add: sorted_map)
  then show ?thesis
    by (simp add: sort_reverse_key_def sorted_wrt_rev)
qed

lemma in_findings_iff:
  "(n, s, p) \<in> set (concat (map (finding_of w f) xs)) \<longleftrightarrow>
     (\<exists>ls. (p, Content ls) \<in> set xs \<and> n = int (length ls) \<and> w < n
        \<and> s = (if f < n then ''FAIL'' else ''WARN''))"
  by (induction xs) (auto simp: finding_of_def split: file_data.splits)

lemma length_findings:
  "length (concat (map (finding_of w f) xs)) =
     length (filter (\<lambda>(p, data). case data of Content ls \<Rightarrow> w < int (length ls)
                                  | Unreadable e \<Rightarrow> False) xs)"
  by (induction xs) (auto simp: finding_of_def split: file_data.splits)

lemma map_fst_update_first [simp]: "map fst (update_first n g xs) = map fst xs"
  by (induction xs) auto

lemma remove_name_update_first_same [simp]:
  "remove_name n (update_first n g xs) = remove_name n xs"
  by (induction xs) auto

lemma remove_name_update_first_other:
  "m \<noteq> n \<Longrightarrow> remove_name m (update_first n g xs) = update_first n g (remove_name m xs)"
  by (induction xs) auto

lemma remove_name_absent: "n \<notin> set (map fst xs) \<Longrightarrow> remove_name n xs = xs"
  by (induction xs) auto

lemma prune_eq: "prune dirs = remove_name ''.git'' (remove_name ''node_modules'' dirs)"
  unfolding prune_def Let_def
  using remove_name_absent [of "''node_modules''" dirs]
    remove_name_absent [of "''.git''" dirs]
    remove_name_absent [of "''.git''" "remove_name ''node_modules'' dirs"]
  by simp

lemma prune_update_first_pruned:
  "n = ''node_modules'' \<or> n = ''.git'' \<Longrightarrow> prune (update_first n g dirs) = prune dirs"
  by (auto simp: prune_eq remove_name_update_first_other)

lemma prune_update_first_other:
  "n \<noteq> ''node_modules'' \<Longrightarrow> n \<noteq> ''.git'' \<Longrightarrow>
     prune (update_first n g dirs) = update_first n g (prune dirs)"
  by (simp add: prune_eq remove_name_update_first_other)

lemma concat_map_update_first:
  assumes "\<And>d. h n (g d) = h n d"
  shows "concat (map (\<lambda>(name, sub). h name sub) (update_first n g xs)) =
     concat (map (\<lambda>(name, sub). h name sub) xs)"
  using assms by (induction xs) auto

lemma scanned_replace_cong:
  assumes "\<And>root. scanned root new1 = scanned root new2"
  shows "scanned root (replace_at ns new1 d) = scanned root (replace_at ns new2 d)"
  using assms
proof (induction ns arbitrary: root d)
  case Nil
  then show ?case by simp
next
  case (Cons n ns)
  show ?case
  proof (cases d)
    case (Dir dirs files)
    let ?h = "\<lambda>name sub. scanned (os_path_join root name) sub"
    let ?g1 = "replace_at ns new1" and ?g2 = "replace_at ns new2"
    have step: "concat (map (\<lambda>(name, sub). ?h name sub) (update_first n ?g1 xs)) =
        concat (map (\<lambda>(name, sub). ?h name sub) (update_first n ?g2 xs))" for xs
      using Cons.IH [OF Cons.prems] by (induction xs) auto
    show ?thesis
    proof (cases "n = ''node_modules'' \<or> n = ''.git''")
      case True
      then show ?thesis
        using Dir by (simp add: prune_update_first_pruned)
    next
      case False
      then show ?thesis
        using Dir step [of "prune dirs"] by (simp add: prune_update_first_other)
    qed
  next
    case Unlistable
    then show ?thesis by simp
  qed
qed

lemma scanned_replace_pruned:
  assumes "set ns \<inter> {''node_modules'', ''.git''} \<noteq> {}"
  shows "scanned root (replace_at ns new d) = scanned root d"
  using assms
proof (induction ns arbitrary: root d)
  case Nil
  then show ?case by simp
next
  case (Cons n ns)
  show ?case
  proof (cases d)
    case (Dir dirs files)
    show ?thesis
    proof (cases "n = ''node_modules'' \<or> n = ''.git''")
      case True
      then show ?thesis
        using Dir by (simp add: prune_update_first_pruned)
    next
      case False
      with Cons.prems have "set ns \<inter> {''node_modules'', ''.git''} \<noteq> {}" by auto
      then have "scanned r (replace_at ns new d') = scanned r d'" for r d'
        by (rule Cons.IH)
      then have "concat (map (\<lambda>(name, sub). scanned (os_path_join root name) sub)
            (update_first n (replace_at ns new) (prune dirs))) =
          concat (map (\<lambda>(name, sub). scanned (os_path_join root name) sub) (prune dirs))"
        by (intro concat_map_update_first) simp
      then show ?thesis
        using Dir False by (simp add: prune_update_first_other)
    qed
  next
    case Unlistable
    then show ?thesis by simp
  qed
qed

lemma check_files_scanned:
  "check_files fs roots w f =
     \<lparr>out = header roots w f @ [CHR 0x0A] @ concat (map error_of (scanned_roots fs roots))
        @ CHR 0x0A # ''Results:'' @ [CHR 0x0A]
        @ concat (map (\<lambda>x. render_finding x @ [CHR 0x0A])
            (sort_reverse_key fst (concat (map (finding_of w f) (scanned_roots fs roots))))),
      large_files = sort_reverse_key fst (concat (map (finding_of w f) (scanned_roots fs roots)))\<rparr>"
  by (simp add: check_files_def Let_def fold_print_line walk_roots_grow print_line_def grow_def)

lemma scanned_roots_cong:
  assumes "\<And>r. r \<in> set roots \<Longrightarrow>
     (case fs r of None \<Rightarrow> [] | Some d \<Rightarrow> scanned r d) = (case fs' r of None \<Rightarrow> [] | Some d \<Rightarrow> scanned r d)"
  shows "scanned_roots fs roots = scanned_roots fs' roots"
  unfolding scanned_roots_def using assms by (induction roots) auto

lemma check_files_cong:
  "scanned_roots fs roots = scanned_roots fs' roots \<Longrightarrow>
     check_files fs roots w f = check_files fs' roots w f"
  by (simp add: check_files_scanned)

lemma scanned_roots_upd:
  assumes "\<And>root. scanned root d1 = scanned root d2"
  shows "scanned_roots (fs(r \<mapsto> d1)) roots = scanned_roots (fs(r \<mapsto> d2)) roots"
  by (rule scanned_roots_cong) (simp add: assms)

lemma scanned_drop_unrecognised:
  assumes "\<not> endswith_any file suffixes"
  shows "scanned root (Dir dirs (files1 @ (file, data) # files2)) = scanned root (Dir dirs (files1 @ files2))"
  using assms by (simp add: accepted_def)

text \<open>
  The second script with its own report file in view: as long as no file the walk opens
  is the report file, it raises at the first line that cannot be encoded and else ends in
  the state of the first script.
\<close>

lemma first_bad_Nil [simp]: "first_bad [] = None"
  by (simp add: first_bad_def)














lemma utf8_valid_Cons_ascii:
  "(of_char c :: nat) < 128 \<Longrightarrow> utf8_valid (c # cs) = utf8_valid cs"
  by (simp add: utf8_valid.simps)

lemma utf8_valid_Cons_bad:
  "245 \<le> (of_char c :: nat) \<Longrightarrow> \<not> utf8_valid (c # cs)"
  by (simp add: utf8_valid.simps)


subsection \<open>A small tree to run the scripts on\<close>

text \<open>
  A root \<^verbatim>\<open>src\<close> with three files, of which \<^verbatim>\<open>d.py\<close> has no recognised suffix, a
  subdirectory \<^verbatim>\<open>node_modules\<close> holding a long script, and a subdirectory \<^verbatim>\<open>lib\<close>
  with a file of exactly 700 lines and a file that cannot be read. No other root exists.
\<close>

definition example_tree :: dir where
  "example_tree =
     Dir [(''node_modules'', Dir [] [(''big.js'', Content (replicate 900 []))]),
          (''lib'', Dir [] [(''b.js'', Content (replicate 700 [])),
                            (''locked.ts'', Unreadable ''denied'')])]
         [(''a.ts'', Content (replicate 501 [])),
          (''c.css'', Content (replicate 701 [])),
          (''d.py'', Content (replicate 10000 []))]"

definition example_fs :: "string \<Rightarrow> dir option" where
  "example_fs r = (if r = ''src'' then Some example_tree else None)"

lemma scanned_example:
  "scanned_roots example_fs [''src'', ''dram-engine/src''] =
     [(''src/a.ts'', Content (replicate 501 [])), (''src/c.css'', Content (replicate 701 [])),
      (''src/lib/b.js'', Content (replicate 700 [])), (''src/lib/locked.ts'', Unreadable ''denied'')]"
  by (simp add: scanned_roots_def example_fs_def example_tree_def accepted_def prune_def
      endswith_any_def suffixes_def endswith_def os_path_join_def)



definition bad_fs :: "string \<Rightarrow> dir option" where
  "bad_fs r = (if r = ''src'' then
      Some (Dir [] [(''bad'' @ [CHR 0xFF] @ ''.js'', Unreadable ''denied''), (''big.ts'', Content (replicate 800 []))])
    else None)"



lemma bad_line:
  "\<not> utf8_valid (''Error reading src/bad'' @ [CHR 0xFF] @ ''.js: denied'' @ [CHR 0x0A])"
  by (simp add: utf8_valid_Cons_ascii utf8_valid_Cons_bad)





lemma scanned_bad:
  "scanned_roots bad_fs [''src''] =
     [(''src/bad'' @ [CHR 0xFF] @ ''.js'', Unreadable ''denied''),
      (''src/big.ts'', Content (replicate 800 []))]"
  by (simp add: scanned_roots_def bad_fs_def accepted_def prune_def
      endswith_any_def suffixes_def endswith_def os_path_join_def)

section \<open>The claims\<close>

text \<open>
  In the theorems, \<open>fs\<close> is the file system, \<open>w\<close> is \<^verbatim>\<open>warn_limit\<close> and \<open>f\<close> is
  \<^verbatim>\<open>fail_limit\<close>. \<open>check_files\<close> is the first script; \<open>report_v2\<close> and
  \<open>check_files_v2\<close> are the second.
\<close>

subsection \<open>C1: a Finding exactly for the counts above the warn limit\<close>

text \<open>
  C1. For every file scanned, a Finding is recorded if and only if its line count
  strictly exceeds \<^verbatim>\<open>warn_limit\<close>, and its status is FAIL if the count also strictly
  exceeds \<^verbatim>\<open>fail_limit\<close>, otherwise WARN. In both scripts, the tuple \<open>(n, s, p)\<close> is in
  the final list exactly when a scanned file of path \<open>p\<close> was read, has \<open>n\<close> lines
  with \<open>w < n\<close>, and \<open>s\<close> is FAIL for \<open>f < n\<close> and WARN otherwise; and the list has
  as many tuples as there are scanned files that were read and have more than \<open>w\<close>
  lines.
\<close>

theorem finding_iff_count_exceeds_warn_limit:
  "((n, s, p) \<in> set (large_files (check_files fs roots w f)) \<longleftrightarrow>
      (\<exists>ls. (p, Content ls) \<in> set (scanned_roots fs roots) \<and> n = int (length ls) \<and> w < n
         \<and> s = (if f < n then ''FAIL'' else ''WARN'')))
   \<and> ((n, s, p) \<in> set (large_files (report_v2 fs roots w f)) \<longleftrightarrow>
      (\<exists>ls. (p, Content ls) \<in> set (scanned_roots fs roots) \<and> n = int (length ls) \<and> w < n
         \<and> s = (if f < n then ''FAIL'' else ''WARN'')))
   \<and> length (large_files (check_files fs roots w f)) =
       length (filter (\<lambda>(p, data). case data of Content ls \<Rightarrow> w < int (length ls)
                                    | Unreadable e \<Rightarrow> False) (scanned_roots fs roots))
   \<and> length (large_files (report_v2 fs roots w f)) =
       length (filter (\<lambda>(p, data). case data of Content ls \<Rightarrow> w < int (length ls)
                                    | Unreadable e \<Rightarrow> False) (scanned_roots fs roots))"
  by (simp only: report_v2_eq check_files_large set_sort_reverse_key length_sort_reverse_key
      in_findings_iff length_findings simp_thms)

subsection \<open>C2: a count equal to the fail limit is a WARN\<close>

text \<open>
  C2. A file whose line count equals \<^verbatim>\<open>fail_limit\<close> exactly gets a Finding of status
  WARN, not FAIL; FAIL requires a count strictly greater than \<^verbatim>\<open>fail_limit\<close>. For a
  scanned file of exactly \<open>f\<close> lines, with \<open>w < f\<close> so that it is reported at all, both
  scripts hold the tuple with WARN; no tuple of count \<open>f\<close> has another status; and every
  FAIL tuple has a count above \<open>f\<close>.
\<close>

theorem count_equal_fail_limit_is_warn:
  assumes "(p, Content ls) \<in> set (scanned_roots fs roots)" and "int (length ls) = f" and "w < f"
  shows "(f, ''WARN'', p) \<in> set (large_files (check_files fs roots w f))
    \<and> (f, ''WARN'', p) \<in> set (large_files (report_v2 fs roots w f))
    \<and> ((f, s, q) \<in> set (large_files (check_files fs roots w f)) \<longrightarrow> s = ''WARN'')
    \<and> ((f, s, q) \<in> set (large_files (report_v2 fs roots w f)) \<longrightarrow> s = ''WARN'')
    \<and> ((n, ''FAIL'', q) \<in> set (large_files (check_files fs roots w f)) \<longrightarrow> f < n)
    \<and> ((n, ''FAIL'', q) \<in> set (large_files (report_v2 fs roots w f)) \<longrightarrow> f < n)"
proof -
  have mem: "(n', s', p') \<in> set (large_files (check_files fs roots w f)) \<longleftrightarrow>
      (\<exists>ls. (p', Content ls) \<in> set (scanned_roots fs roots) \<and> n' = int (length ls) \<and> w < n'
         \<and> s' = (if f < n' then ''FAIL'' else ''WARN''))" for n' s' p'
    by (simp only: check_files_large set_sort_reverse_key in_findings_iff)
  have "(f, ''WARN'', p) \<in> set (large_files (check_files fs roots w f))"
    unfolding mem using assms by auto
  moreover have "s = ''WARN''" if "(f, s, q) \<in> set (large_files (check_files fs roots w f))"
    using that unfolding mem by auto
  moreover have "f < n" if "(n, ''FAIL'', q) \<in> set (large_files (check_files fs roots w f))"
    using that unfolding mem by (auto split: if_splits)
  ultimately show ?thesis
    by (simp add: report_v2_eq)
qed

theorem count_equal_fail_limit_is_warn_witness:
  "(700, ''WARN'', ''src/lib/b.js'') \<in> set (large_files (check_files example_fs [''src'', ''dram-engine/src''] 500 700))
   \<and> (700, ''WARN'', ''src/lib/b.js'') \<in> set (large_files (report_v2 example_fs [''src'', ''dram-engine/src''] 500 700))
   \<and> (700, ''FAIL'', ''src/lib/b.js'') \<notin> set (large_files (check_files example_fs [''src'', ''dram-engine/src''] 500 700))
   \<and> (700, ''FAIL'', ''src/lib/b.js'') \<notin> set (large_files (report_v2 example_fs [''src'', ''dram-engine/src''] 500 700))"
proof -
  have a: "(''src/lib/b.js'', Content (replicate 700 [])) \<in> set (scanned_roots example_fs [''src'', ''dram-engine/src''])"
    by (simp add: scanned_example)
  have b: "int (length (replicate 700 ([]::string))) = 700" by simp
  have c: "(500::int) < 700" by simp
  show ?thesis
    using count_equal_fail_limit_is_warn [OF a b c, of "''FAIL''" "''src/lib/b.js''"]
    by auto
qed

subsection \<open>C3: the report is sorted by count, largest first, and the sort is stable\<close>

text \<open>
  C3. In the rendered report the Findings appear in non-increasing order of line count,
  and Findings of equal count keep their traversal order. In both scripts the final
  list is sorted that way; for every count \<open>n\<close>, the tuples of count \<open>n\<close> stand in
  the final list in the order in which the loops appended them; and the text after the
  walk is the \<^verbatim>\<open>Results:\<close> line followed by one line per tuple, in the order of the
  final list.
\<close>

theorem report_sorted_descending_and_stable:
  "sorted_wrt (\<lambda>x y. fst x \<ge> fst y) (large_files (check_files fs roots w f))
   \<and> filter (\<lambda>x. fst x = n) (large_files (check_files fs roots w f)) =
       filter (\<lambda>x. fst x = n)
         (large_files (walk_roots fs w f roots \<lparr>out = header roots w f @ [CHR 0x0A], large_files = []\<rparr>))
   \<and> out (check_files fs roots w f) =
       out (walk_roots fs w f roots \<lparr>out = header roots w f @ [CHR 0x0A], large_files = []\<rparr>)
         @ CHR 0x0A # ''Results:'' @ [CHR 0x0A]
         @ concat (map (\<lambda>x. render_finding x @ [CHR 0x0A]) (large_files (check_files fs roots w f)))
   \<and> sorted_wrt (\<lambda>x y. fst x \<ge> fst y) (large_files (report_v2 fs roots w f))
   \<and> filter (\<lambda>x. fst x = n) (large_files (report_v2 fs roots w f)) =
       filter (\<lambda>x. fst x = n)
         (large_files (walk_roots_v2 fs w f roots \<lparr>out = header roots w f @ [CHR 0x0A], large_files = []\<rparr>))
   \<and> out (report_v2 fs roots w f) =
       out (walk_roots_v2 fs w f roots \<lparr>out = header roots w f @ [CHR 0x0A], large_files = []\<rparr>)
         @ CHR 0x0A # ''Results:'' @ [CHR 0x0A]
         @ concat (map (\<lambda>x. render_finding x @ [CHR 0x0A]) (large_files (report_v2 fs roots w f)))"
proof -
  let ?st1 = "walk_roots fs w f roots \<lparr>out = header roots w f @ [CHR 0x0A], large_files = []\<rparr>"
  have large: "large_files (check_files fs roots w f) = sort_reverse_key fst (large_files ?st1)"
    by (simp add: check_files_def Let_def fold_print_line print_line_def)
  have sorted: "sorted_wrt (\<lambda>x y. fst x \<ge> fst y) (large_files (check_files fs roots w f))"
    unfolding large by (rule sorted_wrt_sort_reverse_key)
  have stable: "filter (\<lambda>x. fst x = n) (large_files (check_files fs roots w f)) =
      filter (\<lambda>x. fst x = n) (large_files ?st1)"
    unfolding large by (rule sort_reverse_key_stable)
  have rendered: "out (check_files fs roots w f) =
      out ?st1 @ CHR 0x0A # ''Results:'' @ [CHR 0x0A]
        @ concat (map (\<lambda>x. render_finding x @ [CHR 0x0A]) (large_files (check_files fs roots w f)))"
    by (simp add: check_files_def Let_def fold_print_line print_line_def)
  from sorted stable rendered show ?thesis
    by (simp only: report_v2_eq walk_roots_v2_eq simp_thms)
qed

subsection \<open>C4: the two scripts compute the same report, unless the second scans its own\<close>




subsection \<open>C5: a file that cannot be read, in the second script\<close>

text \<open>
  C5. If opening or reading a file raises an error, the error is reported to the same
  sink as the other messages, the file gets no Finding, and the scan goes on and
  produces the Findings of all the other files; a read error never aborts the run. The
  second script does not keep to this. The root \<^verbatim>\<open>src\<close> holds a file that cannot be
  read and whose name has the byte 0xFF in it, and after it \<^verbatim>\<open>big.ts\<close> with 800
  lines. The handler of the read error writes the error line to the report; the line
  holds the path, the path has no UTF-8 encoding, and the call ends in
  \<^verbatim>\<open>UnicodeEncodeError\<close>: no Results section, and the Finding of \<^verbatim>\<open>big.ts\<close>, which the
  first script reports, is lost.
\<close>

theorem read_error_aborts_on_unencodable_path:
  "check_files_v2_io (view_of ''large_files_report.txt'') bad_fs [''src''] 500 700
      ''large_files_report.txt'' (\<lambda>_. Absent) =
     Inl (UnicodeEncodeError (''Error reading src/bad'' @ [CHR 0xFF] @ ''.js: denied'' @ [CHR 0x0A]))
   \<and> scanned_roots bad_fs [''src''] =
       [(''src/bad'' @ [CHR 0xFF] @ ''.js'', Unreadable ''denied''),
        (''src/big.ts'', Content (replicate 800 []))]
   \<and> large_files (check_files bad_fs [''src''] 500 700) = [(800, ''FAIL'', ''src/big.ts'')]"
proof -
  have bad: "scan_file_v2_io (view_of ''large_files_report.txt'') 500 700 ''src''
        (''bad'' @ [CHR 0xFF] @ ''.js'', Unreadable ''denied'') st =
      Inl (UnicodeEncodeError (''Error reading src/bad'' @ [CHR 0xFF] @ ''.js: denied'' @ [CHR 0x0A]))" for st
    using bad_line
    by (simp add: scan_file_v2_io_def view_of_def endswith_any_def suffixes_def endswith_def
        os_path_join_def write_v2_io_def)
  have "walk_v2_io (view_of ''large_files_report.txt'') 500 700 ''src''
      (Dir [] [(''bad'' @ [CHR 0xFF] @ ''.js'', Unreadable ''denied''), (''big.ts'', Content (replicate 800 []))]) st =
      Inl (UnicodeEncodeError (''Error reading src/bad'' @ [CHR 0xFF] @ ''.js: denied'' @ [CHR 0x0A]))" for st
    using bad [of st] by simp
  then have run: "check_files_v2_io (view_of ''large_files_report.txt'') bad_fs [''src''] 500 700
      ''large_files_report.txt'' (\<lambda>_. Absent) =
     Inl (UnicodeEncodeError (''Error reading src/bad'' @ [CHR 0xFF] @ ''.js: denied'' @ [CHR 0x0A]))"
    by (simp add: check_files_v2_io_def report_v2_io_def walk_roots_v2_io_def bad_fs_def)
  have v1: "large_files (check_files bad_fs [''src''] 500 700) = [(800, ''FAIL'', ''src/big.ts'')]"
    by (simp add: check_files_large scanned_bad finding_of_def sort_reverse_key_def)
  from run scanned_bad v1 show ?thesis by (intro conjI)
qed

subsection \<open>C6: nothing under a pruned directory is scanned\<close>

text \<open>
  C6. Files anywhere under a pruned directory (\<^verbatim>\<open>node_modules\<close> or \<^verbatim>\<open>.git\<close>)
  contribute no Finding, whatever their suffixes and line counts; the pruned directory is
  never descended into. Let \<open>ns\<close> be a path of directory names below a root, one of
  which is \<^verbatim>\<open>node_modules\<close> or \<^verbatim>\<open>.git\<close>. Replacing the directory at \<open>ns\<close> by any
  other changes neither the state a walk of the tree ends in nor, when the tree is the
  root \<open>r\<close> of the file system, the report of either script. The root itself is not
  pruned by its name: the names in \<open>ns\<close> are below it.
\<close>

theorem pruned_directories_contribute_nothing:
  assumes "set ns \<inter> {''node_modules'', ''.git''} \<noteq> {}"
  shows "walk w f root (replace_at ns new d) st = walk w f root d st
    \<and> walk_v2 w f root (replace_at ns new d) st = walk_v2 w f root d st
    \<and> check_files (fs(r \<mapsto> replace_at ns new d)) roots w f = check_files (fs(r \<mapsto> d)) roots w f
    \<and> report_v2 (fs(r \<mapsto> replace_at ns new d)) roots w f = report_v2 (fs(r \<mapsto> d)) roots w f
    \<and> check_files_v2 (fs(r \<mapsto> replace_at ns new d)) roots w f output_file store =
        check_files_v2 (fs(r \<mapsto> d)) roots w f output_file store"
proof -
  have same: "scanned root' (replace_at ns new d) = scanned root' d" for root'
    using assms by (rule scanned_replace_pruned)
  have "scanned_roots (fs(r \<mapsto> replace_at ns new d)) roots = scanned_roots (fs(r \<mapsto> d)) roots"
    using same by (rule scanned_roots_upd)
  then have "check_files (fs(r \<mapsto> replace_at ns new d)) roots w f = check_files (fs(r \<mapsto> d)) roots w f"
    by (rule check_files_cong)
  moreover have "walk w f root (replace_at ns new d) st = walk w f root d st"
    by (simp add: walk_grow same)
  ultimately show ?thesis
    by (simp add: walk_v2_eq report_v2_eq check_files_v2_def split: slot.split)
qed

lemma example_tree_replaced:
  "replace_at [''node_modules''] (Dir [] []) example_tree =
     Dir [(''node_modules'', Dir [] []),
          (''lib'', Dir [] [(''b.js'', Content (replicate 700 [])),
                            (''locked.ts'', Unreadable ''denied'')])]
         [(''a.ts'', Content (replicate 501 [])),
          (''c.css'', Content (replicate 701 [])),
          (''d.py'', Content (replicate 10000 []))]"
  by (simp add: example_tree_def)

theorem pruned_directories_contribute_nothing_witness:
  "set [''node_modules''] \<inter> {''node_modules'', ''.git''} \<noteq> {}
   \<and> large_files (check_files (Map.empty(''src'' \<mapsto> example_tree)) [''src''] 500 700) =
       large_files (check_files (Map.empty(''src'' \<mapsto>
          Dir [(''node_modules'', Dir [] []),
               (''lib'', Dir [] [(''b.js'', Content (replicate 700 [])),
                                 (''locked.ts'', Unreadable ''denied'')])]
              [(''a.ts'', Content (replicate 501 [])),
               (''c.css'', Content (replicate 701 [])),
               (''d.py'', Content (replicate 10000 []))])) [''src''] 500 700)
   \<and> (900, ''FAIL'', ''src/node_modules/big.js'')
        \<notin> set (large_files (check_files (Map.empty(''src'' \<mapsto> example_tree)) [''src''] 500 700))"
proof -
  have h: "set [''node_modules''] \<inter> {''node_modules'', ''.git''} \<noteq> {}" by simp
  have eq: "check_files (Map.empty(''src'' \<mapsto> replace_at [''node_modules''] (Dir [] []) example_tree)) [''src''] 500 700
      = check_files (Map.empty(''src'' \<mapsto> example_tree)) [''src''] 500 700"
    using pruned_directories_contribute_nothing [OF h, of 500 700 "''src''" "Dir [] []" example_tree
        "\<lparr>out = [], large_files = []\<rparr>" Map.empty "''src''" "[''src'']"]
    by simp
  note eq' = eq [unfolded example_tree_replaced]
  have "large_files (check_files (Map.empty(''src'' \<mapsto> example_tree)) [''src''] 500 700)
      = [(701, ''FAIL'', ''src/c.css''), (700, ''WARN'', ''src/lib/b.js''), (501, ''WARN'', ''src/a.ts'')]"
    by (simp add: check_files_large scanned_roots_def example_tree_def accepted_def prune_def
      endswith_any_def suffixes_def endswith_def os_path_join_def finding_of_def sort_reverse_key_def)
  then have "(900, ''FAIL'', ''src/node_modules/big.js'')
      \<notin> set (large_files (check_files (Map.empty(''src'' \<mapsto> example_tree)) [''src''] 500 700))"
    by simp
  with h eq' show ?thesis
    by (simp only: simp_thms)
qed

subsection \<open>C7: files without a recognised suffix are ignored\<close>

text \<open>
  C7. A file whose name ends with none of \<^verbatim>\<open>.js .ts .jsx .tsx .mjs .cjs .css .html\<close>
  contributes no Finding, whatever its line count, and nothing is written about it. The
  loop body leaves the state as it is for such a file, readable or not; and removing the
  file from its directory, wherever that directory stands in the tree of a root, leaves
  the whole report of either script unchanged.
\<close>

theorem unrecognised_suffix_is_ignored:
  assumes "\<not> endswith_any file suffixes"
  shows "scan_file w f root (file, data) st = st
    \<and> scan_file_v2 w f root (file, data) st = st
    \<and> check_files (fs(r \<mapsto> replace_at ns (Dir dirs (files1 @ (file, data) # files2)) d)) roots w f =
        check_files (fs(r \<mapsto> replace_at ns (Dir dirs (files1 @ files2)) d)) roots w f
    \<and> check_files_v2 (fs(r \<mapsto> replace_at ns (Dir dirs (files1 @ (file, data) # files2)) d)) roots w f
          output_file store =
        check_files_v2 (fs(r \<mapsto> replace_at ns (Dir dirs (files1 @ files2)) d)) roots w f
          output_file store"
proof -
  let ?with = "Dir dirs (files1 @ (file, data) # files2)" and ?without = "Dir dirs (files1 @ files2)"
  have "scanned root' ?with = scanned root' ?without" for root'
    using assms by (rule scanned_drop_unrecognised)
  then have "scanned root' (replace_at ns ?with d) = scanned root' (replace_at ns ?without d)" for root'
    by (rule scanned_replace_cong)
  then have "scanned_roots (fs(r \<mapsto> replace_at ns ?with d)) roots =
      scanned_roots (fs(r \<mapsto> replace_at ns ?without d)) roots"
    by (rule scanned_roots_upd)
  then have "check_files (fs(r \<mapsto> replace_at ns ?with d)) roots w f =
      check_files (fs(r \<mapsto> replace_at ns ?without d)) roots w f"
    by (rule check_files_cong)
  moreover have "scan_file w f root (file, data) st = st"
    using assms by (simp add: scan_file_def)
  ultimately show ?thesis
    by (simp add: scan_file_v2_eq report_v2_eq check_files_v2_def split: slot.split)
qed

theorem unrecognised_suffix_is_ignored_witness:
  "\<not> endswith_any ''d.py'' suffixes
   \<and> check_files (Map.empty(''src'' \<mapsto> example_tree)) [''src''] 500 700 =
       check_files (Map.empty(''src'' \<mapsto>
          Dir [(''node_modules'', Dir [] [(''big.js'', Content (replicate 900 []))]),
               (''lib'', Dir [] [(''b.js'', Content (replicate 700 [])),
                                 (''locked.ts'', Unreadable ''denied'')])]
              [(''a.ts'', Content (replicate 501 [])),
               (''c.css'', Content (replicate 701 []))])) [''src''] 500 700"
proof -
  have h: "\<not> endswith_any ''d.py'' suffixes"
    by (simp add: endswith_any_def suffixes_def endswith_def)
  show ?thesis
    using h unrecognised_suffix_is_ignored [OF h, of 500 700 "''src''" "Content (replicate 10000 [])"
        "\<lparr>out = [], large_files = []\<rparr>" Map.empty "''src''" "[]"
        "[(''node_modules'', Dir [] [(''big.js'', Content (replicate 900 []))]),
          (''lib'', Dir [] [(''b.js'', Content (replicate 700 [])),
                            (''locked.ts'', Unreadable ''denied'')])]"
        "[(''a.ts'', Content (replicate 501 [])), (''c.css'', Content (replicate 701 []))]" "[]"
        Unlistable "[''src'']"]
    by (simp add: example_tree_def)
qed

subsection \<open>C8: a root that does not exist\<close>



subsection \<open>C9: a second run gives the same report\<close>

text \<open>
  C9. Running the scan twice with the same arguments on an unchanged tree gives
  byte-identical report content. The report depends on the file system only through the
  files the walk opens, in their order: two file systems that agree on them give the
  same final state in both scripts. And the second script, run again in the store its
  first run left behind, leaves that store as it is: the earlier report is overwritten
  by an identical one, not appended to.
\<close>

theorem second_run_gives_identical_report:
  assumes "scanned_roots fs roots = scanned_roots fs' roots"
  shows "check_files fs' roots w f = check_files fs roots w f
    \<and> report_v2 fs' roots w f = report_v2 fs roots w f
    \<and> (check_files_v2 fs roots w f output_file store = Inr store1 \<longrightarrow>
         check_files_v2 fs' roots w f output_file store1 = Inr store1)"
proof -
  have same: "check_files fs' roots w f = check_files fs roots w f"
    using assms by (simp add: check_files_scanned)
  have "check_files_v2 fs' roots w f output_file store1 = Inr store1"
    if "check_files_v2 fs roots w f output_file store = Inr store1"
  proof -
    from that have open_ok: "store output_file \<noteq> Locked"
      and store1: "store1 = store(output_file := Text (out (report_v2 fs roots w f)))"
      by (auto simp: check_files_v2_def split: slot.splits)
    show ?thesis
      by (simp add: check_files_v2_def store1 report_v2_eq same)
  qed
  with same show ?thesis
    by (simp add: report_v2_eq)
qed

theorem second_run_gives_identical_report_witness:
  "\<exists>store1. check_files_v2 example_fs [''src'', ''dram-engine/src''] 500 700 ''large_files_report.txt''
        (\<lambda>_. Absent) = Inr store1
     \<and> check_files_v2 example_fs [''src'', ''dram-engine/src''] 500 700 ''large_files_report.txt''
        store1 = Inr store1
     \<and> store1 ''large_files_report.txt'' =
         Text (out (check_files example_fs [''src'', ''dram-engine/src''] 500 700))"
proof -
  let ?s1 = "(\<lambda>_. Absent)(''large_files_report.txt'' :=
      Text (out (report_v2 example_fs [''src'', ''dram-engine/src''] 500 700)))"
  have first: "check_files_v2 example_fs [''src'', ''dram-engine/src''] 500 700 ''large_files_report.txt''
      (\<lambda>_. Absent) = Inr ?s1"
    by (simp add: check_files_v2_def)
  have h: "scanned_roots example_fs [''src'', ''dram-engine/src''] =
      scanned_roots example_fs [''src'', ''dram-engine/src'']" by simp
  have second: "check_files_v2 example_fs [''src'', ''dram-engine/src''] 500 700 ''large_files_report.txt''
      ?s1 = Inr ?s1"
    using second_run_gives_identical_report [OF h, where w = 500 and f = 700
        and output_file = "''large_files_report.txt''" and store = "\<lambda>_. Absent" and ?store1.0 = ?s1]
      first by blast
  have "?s1 ''large_files_report.txt'' =
      Text (out (check_files example_fs [''src'', ''dram-engine/src''] 500 700))"
    by (simp add: report_v2_eq)
  with first second show ?thesis by blast
qed

subsection \<open>C10: the two limits are never compared\<close>

text \<open>
  C10. No ordering between the limits is checked, and the FAIL test sits inside the WARN
  test: when \<^verbatim>\<open>fail_limit < warn_limit\<close>, a file whose count \<open>n\<close> lies above
  \<^verbatim>\<open>fail_limit\<close> and not above \<^verbatim>\<open>warn_limit\<close> gets no Finding. No tuple of such a
  count is in the final list of either script, the loop body leaves the state as it is for
  a file of that many lines, and every FAIL tuple has a count above both limits.
\<close>

theorem no_finding_between_fail_and_warn_limit:
  assumes "f < w" and "f < n" and "n \<le> w"
  shows "(n, s, p) \<notin> set (large_files (check_files fs roots w f))
    \<and> (n, s, p) \<notin> set (large_files (report_v2 fs roots w f))
    \<and> (int (length ls) = n \<longrightarrow> scan_file w f root (file, Content ls) st = st
          \<and> scan_file_v2 w f root (file, Content ls) st = st)
    \<and> ((m, ''FAIL'', q) \<in> set (large_files (check_files fs roots w f)) \<longrightarrow> w < m \<and> f < m)
    \<and> ((m, ''FAIL'', q) \<in> set (large_files (report_v2 fs roots w f)) \<longrightarrow> w < m \<and> f < m)"
proof -
  have mem: "(n', s', p') \<in> set (large_files (check_files fs roots w f)) \<longleftrightarrow>
      (\<exists>ls. (p', Content ls) \<in> set (scanned_roots fs roots) \<and> n' = int (length ls) \<and> w < n'
         \<and> s' = (if f < n' then ''FAIL'' else ''WARN''))" for n' s' p'
    by (simp only: check_files_large set_sort_reverse_key in_findings_iff)
  have none: "(n, s, p) \<notin> set (large_files (check_files fs roots w f))"
    unfolding mem using assms by auto
  have body: "scan_file w f root (file, Content ls) st = st" if "int (length ls) = n"
    using that assms by (simp add: scan_file_def Let_def)
  have fail: "w < m \<and> f < m" if "(m, ''FAIL'', q) \<in> set (large_files (check_files fs roots w f))"
    using that unfolding mem by (auto split: if_splits)
  from none body fail show ?thesis
    by (simp add: report_v2_eq scan_file_v2_eq)
qed

theorem no_finding_between_fail_and_warn_limit_witness:
  "(500::int) < 700 \<and> (500::int) < 700 \<and> (700::int) \<le> 700
   \<and> (''src/lib/b.js'', Content (replicate 700 [])) \<in> set (scanned_roots example_fs [''src'', ''dram-engine/src''])
   \<and> (700, ''FAIL'', ''src/lib/b.js'') \<notin> set (large_files (check_files example_fs [''src'', ''dram-engine/src''] 700 500))
   \<and> (700, ''WARN'', ''src/lib/b.js'') \<notin> set (large_files (check_files example_fs [''src'', ''dram-engine/src''] 700 500))
   \<and> (700, ''FAIL'', ''src/lib/b.js'') \<notin> set (large_files (report_v2 example_fs [''src'', ''dram-engine/src''] 700 500))"
proof -
  have a: "(500::int) < 700" and b: "(700::int) \<le> 700" by simp_all
  have c: "(''src/lib/b.js'', Content (replicate 700 [])) \<in> set (scanned_roots example_fs [''src'', ''dram-engine/src''])"
    by (simp add: scanned_example)
  show ?thesis
    using a b c
      no_finding_between_fail_and_warn_limit [OF a a b, where s = "''FAIL''" and p = "''src/lib/b.js''"
        and fs = example_fs and roots = "[''src'', ''dram-engine/src'']"]
      no_finding_between_fail_and_warn_limit [OF a a b, where s = "''WARN''" and p = "''src/lib/b.js''"
        and fs = example_fs and roots = "[''src'', ''dram-engine/src'']"]
    by blast
qed

end
